theory Spec2Isabelle
  imports Main "HOL-Library.Product_Lexorder" "HOL-Library.Sublist"
begin

section \<open>Data model (types.py)\<close>

text \<open>
  \<open>PolicyType\<close> and \<open>RoleType\<close> are \<open>Literal\<close> string types in the source; each is an
  enumeration here. Python's unbounded integers are \<open>int\<close>; a \<open>str\<close> is a \<open>string\<close>, whose
  characters stand for the code points below 256.
\<close>

datatype PolicyType = Public | JoinOnly | AggOnly | Hidden

datatype RoleType = SelectExpr | JoinCond | WherePred | AggArg

datatype ColumnRef =
  ColumnRef (ref_table: string) (ref_column: string) (ref_role: RoleType) (ref_agg_id: int)

datatype Violation =
  Violation (column: string) (role: RoleType) (policy: PolicyType) (agg_id: int)

record TableSchema =
  db_id :: string
  table_names :: "string list"
  column_names :: "(int \<times> string) list"
  column_types :: "string list"
  primary_keys :: "int list"
  foreign_keys :: "(int \<times> int) list"

text \<open>The exceptions the modelled code can raise.\<close>

datatype error = IndexError | KeyError | ReError

text \<open>The text of a policy or role, as the f-strings of the source print it.\<close>

fun policy_str :: "PolicyType \<Rightarrow> string" where
  "policy_str Public = ''Public''"
| "policy_str JoinOnly = ''JoinOnly''"
| "policy_str AggOnly = ''AggOnly''"
| "policy_str Hidden = ''Hidden''"

fun role_str :: "RoleType \<Rightarrow> string" where
  "role_str SelectExpr = ''SelectExpr''"
| "role_str JoinCond = ''JoinCond''"
| "role_str WherePred = ''WherePred''"
| "role_str AggArg = ''AggArg''"

section \<open>Violation checker (violation_checker.py)\<close>

text \<open>
  \<open>PERMISSION_TABLE\<close> is a dictionary of dictionaries; a lookup of a key that is not there
  raises \<open>KeyError\<close>, so the lookups of \<open>is_allowed\<close> are written with their failure branch.
\<close>

definition PERMISSION_TABLE :: "PolicyType \<rightharpoonup> (RoleType \<rightharpoonup> bool)" where
  "PERMISSION_TABLE = map_of
     [(Public, map_of [(SelectExpr, True), (JoinCond, True), (WherePred, True), (AggArg, True)]),
      (JoinOnly, map_of [(SelectExpr, False), (JoinCond, True), (WherePred, True), (AggArg, False)]),
      (AggOnly, map_of [(SelectExpr, False), (JoinCond, False), (WherePred, False), (AggArg, True)]),
      (Hidden, map_of [(SelectExpr, False), (JoinCond, False), (WherePred, False), (AggArg, False)])]"

definition AGGONLY_ALLOWED_AGGS :: "int set" where
  "AGGONLY_ALLOWED_AGGS = {3, 5}"

definition is_allowed :: "PolicyType \<Rightarrow> RoleType \<Rightarrow> int \<Rightarrow> error + bool" where
  "is_allowed p r a =
     (case PERMISSION_TABLE p of
        None \<Rightarrow> Inl KeyError
      | Some row \<Rightarrow>
          (case row r of
             None \<Rightarrow> Inl KeyError
           | Some permitted \<Rightarrow>
               if \<not> permitted then Inr False
               else if p = AggOnly \<and> r = AggArg \<and> a \<notin> AGGONLY_ALLOWED_AGGS then Inr False
               else Inr True))"

text \<open>The key \<open>f"{ref.table}.{ref.column}"\<close> of a reference.\<close>

definition col_key_of :: "ColumnRef \<Rightarrow> string" where
  "col_key_of ref = ref_table ref @ ''.'' @ ref_column ref"

text \<open>\<open>policies.get(col_key, "Public")\<close>.\<close>

definition policy_get_default :: "(string \<rightharpoonup> PolicyType) \<Rightarrow> string \<Rightarrow> PolicyType" where
  "policy_get_default policies k = (case policies k of None \<Rightarrow> Public | Some p \<Rightarrow> p)"

fun check_violations :: "ColumnRef list \<Rightarrow> (string \<rightharpoonup> PolicyType) \<Rightarrow> error + Violation list" where
  "check_violations [] policies = Inr []"
| "check_violations (ref # refs) policies =
     (let col_key = col_key_of ref;
          p = policy_get_default policies col_key
      in case is_allowed p (ref_role ref) (ref_agg_id ref) of
           Inl e \<Rightarrow> Inl e
         | Inr ok \<Rightarrow>
             (case check_violations refs policies of
                Inl e \<Rightarrow> Inl e
              | Inr vs \<Rightarrow>
                  Inr (if ok then vs
                       else Violation col_key (ref_role ref) p (ref_agg_id ref) # vs)))"

text \<open>The base permission matrix of the specification, written out by cases.\<close>

fun base_matrix :: "PolicyType \<Rightarrow> RoleType \<Rightarrow> bool" where
  "base_matrix Public r = True"
| "base_matrix JoinOnly r = (r = JoinCond \<or> r = WherePred)"
| "base_matrix AggOnly r = (r = AggArg)"
| "base_matrix Hidden r = False"

section \<open>Role extractor (role_extractor.py)\<close>

text \<open>
  The parsed query is a dictionary with positional lists inside; each shape is a datatype
  here. Only the entries the extractor reads are kept: the SELECT clause, the table units
  and the conditions of FROM, the WHERE conditions and the three set operations. A
  right-hand operand of a condition is \<open>None\<close>, a literal (a number or a string, which the
  extractor passes over), a column unit (a list of three) or a nested query (a dictionary).
  A leading underscore of a source name is dropped, since a name cannot start with one.
\<close>

datatype col_unit = ColUnit (cu_agg_id: int) (cu_col_id: int) (cu_distinct: bool)

datatype val_unit =
  ValUnit (unit_op: int) (col_unit1: "col_unit option") (col_unit2: "col_unit option")

datatype sql =
  Sql (select_distinct: bool) (select_items: "(int \<times> val_unit) list")
      (from_table_units: "table_unit list") (from_conds: "cond_item list")
      (where_conds: "cond_item list")
      (intersect_branch: "sql option") (union_branch: "sql option") (except_branch: "sql option")
and table_unit = TableUnit int | SqlUnit sql
and cond_item = Connector string | Cond bool int val_unit val val
and val = ValNone | ValLiteral string | ValColUnit col_unit | ValSql sql

text \<open>
  \<open>xs[i]\<close> of Python: a negative index counts from the end, and an index outside
  \<open>-len(xs) .. len(xs) - 1\<close> raises \<open>IndexError\<close>.
\<close>

definition py_index :: "'a list \<Rightarrow> int \<Rightarrow> error + 'a" where
  "py_index xs i =
     (if 0 \<le> i \<and> i < int (length xs) then Inr (xs ! nat i)
      else if i < 0 \<and> - int (length xs) \<le> i then Inr (xs ! nat (int (length xs) + i))
      else Inl IndexError)"

text \<open>
  \<open>refs.extend(f(...))\<close> after the references collected so far: the first exception
  raised ends the call.
\<close>

definition extend_with :: "error + 'a list \<Rightarrow> error + 'a list \<Rightarrow> error + 'a list" where
  "extend_with first rest =
     (case first of
        Inl e \<Rightarrow> Inl e
      | Inr xs \<Rightarrow> (case rest of Inl e \<Rightarrow> Inl e | Inr ys \<Rightarrow> Inr (xs @ ys)))"

definition resolve_col_id :: "TableSchema \<Rightarrow> int \<Rightarrow> error + (string \<times> string)" where
  "resolve_col_id schema col_id =
     (if col_id = 0 then Inr ('''', ''*'')
      else if col_id \<ge> int (length (column_names schema)) then Inr ('''', '''')
      else
        (case py_index (column_names schema) col_id of
           Inl e \<Rightarrow> Inl e
         | Inr (table_idx, col_name) \<Rightarrow>
             if table_idx < 0 then Inr ('''', col_name)
             else
               (case py_index (table_names schema) table_idx of
                  Inl e \<Rightarrow> Inl e
                | Inr table_name \<Rightarrow> Inr (table_name, col_name))))"

text \<open>
  The body of the loop of \<open>_extract_from_val_unit\<close> over \<open>[col_unit1, col_unit2]\<close>, for one
  column unit.
\<close>

definition select_col_unit_refs ::
  "TableSchema \<Rightarrow> int \<Rightarrow> col_unit option \<Rightarrow> error + ColumnRef list" where
  "select_col_unit_refs schema outer_agg_id cu =
     (case cu of
        None \<Rightarrow> Inr []
      | Some (ColUnit agg col_id _) \<Rightarrow>
          if col_id = 0 then Inr []
          else
            (let effective_agg = (if agg \<noteq> 0 then agg else outer_agg_id);
                 r = (if effective_agg \<noteq> 0 then AggArg else SelectExpr)
             in case resolve_col_id schema col_id of
                  Inl e \<Rightarrow> Inl e
                | Inr (t, c) \<Rightarrow>
                    if t \<noteq> [] then Inr [ColumnRef t c r effective_agg] else Inr []))"

definition extract_from_val_unit ::
  "val_unit \<Rightarrow> TableSchema \<Rightarrow> int \<Rightarrow> error + ColumnRef list" where
  "extract_from_val_unit vu schema outer_agg_id =
     extend_with (select_col_unit_refs schema outer_agg_id (col_unit1 vu))
            (select_col_unit_refs schema outer_agg_id (col_unit2 vu))"

fun extract_from_select :: "(int \<times> val_unit) list \<Rightarrow> TableSchema \<Rightarrow> error + ColumnRef list" where
  "extract_from_select [] schema = Inr []"
| "extract_from_select ((agg, vu) # items) schema =
     extend_with (extract_from_val_unit vu schema agg) (extract_from_select items schema)"

text \<open>
  The body of the loop of \<open>_extract_cols_from_val_unit\<close>, and of the branch of
  \<open>_extract_from_conds\<close> for a right-hand operand that is a column unit: the role is the
  caller's, the aggregate the column unit's own.
\<close>

definition cond_col_unit_refs ::
  "TableSchema \<Rightarrow> RoleType \<Rightarrow> col_unit option \<Rightarrow> error + ColumnRef list" where
  "cond_col_unit_refs schema r cu =
     (case cu of
        None \<Rightarrow> Inr []
      | Some (ColUnit agg col_id _) \<Rightarrow>
          if col_id = 0 then Inr []
          else
            (case resolve_col_id schema col_id of
               Inl e \<Rightarrow> Inl e
             | Inr (t, c) \<Rightarrow> if t \<noteq> [] then Inr [ColumnRef t c r agg] else Inr []))"

definition extract_cols_from_val_unit ::
  "val_unit \<Rightarrow> TableSchema \<Rightarrow> RoleType \<Rightarrow> error + ColumnRef list" where
  "extract_cols_from_val_unit vu schema r =
     extend_with (cond_col_unit_refs schema r (col_unit1 vu))
            (cond_col_unit_refs schema r (col_unit2 vu))"

text \<open>
  \<open>extract_roles\<close> and \<open>_extract_from_conds\<close> call each other; the iterations of \<open>extract_roles\<close>
  over the table units and over the set operations, and the loop of \<open>_extract_from_conds\<close>
  over \<open>[val1, val2]\<close>, are functions of their own.
\<close>

fun extract_roles :: "sql \<Rightarrow> TableSchema \<Rightarrow> error + ColumnRef list"
  and extract_from_conds :: "cond_item list \<Rightarrow> TableSchema \<Rightarrow> RoleType \<Rightarrow> error + ColumnRef list"
  and extract_from_operand :: "val \<Rightarrow> TableSchema \<Rightarrow> RoleType \<Rightarrow> error + ColumnRef list"
  and extract_from_table_units :: "table_unit list \<Rightarrow> TableSchema \<Rightarrow> error + ColumnRef list"
  and extract_from_branch :: "sql option \<Rightarrow> TableSchema \<Rightarrow> error + ColumnRef list"
where
  "extract_roles (Sql d items tus jconds wconds i u e) schema =
     extend_with (extract_from_select items schema)
    (extend_with (extract_from_conds jconds schema JoinCond)
    (extend_with (extract_from_conds wconds schema WherePred)
    (extend_with (extract_from_table_units tus schema)
    (extend_with (extract_from_branch i schema)
    (extend_with (extract_from_branch u schema)
            (extract_from_branch e schema))))))"
| "extract_from_conds [] schema r = Inr []"
| "extract_from_conds (Connector s # conds) schema r = extract_from_conds conds schema r"
| "extract_from_conds (Cond not_op op_id vu val1 val2 # conds) schema r =
     extend_with (extract_cols_from_val_unit vu schema r)
    (extend_with (extract_from_operand val1 schema r)
    (extend_with (extract_from_operand val2 schema r)
            (extract_from_conds conds schema r)))"
| "extract_from_operand ValNone schema r = Inr []"
| "extract_from_operand (ValLiteral s) schema r = Inr []"
| "extract_from_operand (ValSql q) schema r = extract_roles q schema"
| "extract_from_operand (ValColUnit cu) schema r = cond_col_unit_refs schema r (Some cu)"
| "extract_from_table_units [] schema = Inr []"
| "extract_from_table_units (TableUnit n # tus) schema = extract_from_table_units tus schema"
| "extract_from_table_units (SqlUnit q # tus) schema =
     extend_with (extract_roles q schema) (extract_from_table_units tus schema)"
| "extract_from_branch None schema = Inr []"
| "extract_from_branch (Some q) schema = extract_roles q schema"



section \<open>Text matching (the regular expressions of rewriter.py)\<close>

text \<open>
  The rewriter edits the query text with a handful of fixed regular expressions of Python's
  \<open>re\<close> module, all compiled for \<open>str\<close> with \<open>re.IGNORECASE\<close>. Each expression is written
  out as the function that decides it. The character classes are those of \<open>re\<close> on the code
  points below 256: \<open>\w\<close> is a letter, a digit or the underscore, \<open>\s\<close> is white space, and
  two characters are equal without regard to case when their lower-case forms agree.
\<close>

definition is_word_char :: "char \<Rightarrow> bool" where
  "is_word_char c =
     (let n = (of_char c :: nat) in
        (48 \<le> n \<and> n \<le> 57) \<or> (65 \<le> n \<and> n \<le> 90) \<or> n = 95 \<or> (97 \<le> n \<and> n \<le> 122) \<or>
        n = 170 \<or> n = 178 \<or> n = 179 \<or> n = 181 \<or> n = 185 \<or> n = 186 \<or>
        (188 \<le> n \<and> n \<le> 190) \<or> (192 \<le> n \<and> n \<le> 214) \<or> (216 \<le> n \<and> n \<le> 246) \<or>
        (248 \<le> n \<and> n \<le> 255))"

definition is_space_char :: "char \<Rightarrow> bool" where
  "is_space_char c =
     (let n = (of_char c :: nat) in
        (9 \<le> n \<and> n \<le> 13) \<or> (28 \<le> n \<and> n \<le> 32) \<or> n = 133 \<or> n = 160)"

definition lower_char :: "char \<Rightarrow> char" where
  "lower_char c =
     (let n = (of_char c :: nat) in
        if (65 \<le> n \<and> n \<le> 90) \<or> (192 \<le> n \<and> n \<le> 214) \<or> (216 \<le> n \<and> n \<le> 222)
        then char_of (n + 32) else c)"

text \<open>\<open>str.lower()\<close>.\<close>

definition lower :: "string \<Rightarrow> string" where
  "lower s = map lower_char s"

text \<open>
  A position of a text is the character before it (\<open>None\<close> at the start) and the text from
  it on. \<open>\b\<close> holds where exactly one of the two sides is a word character.
\<close>

definition word_boundary :: "char option \<Rightarrow> string \<Rightarrow> bool" where
  "word_boundary prev rest =
     ((case prev of None \<Rightarrow> False | Some c \<Rightarrow> is_word_char c) \<noteq>
      (case rest of [] \<Rightarrow> False | c # _ \<Rightarrow> is_word_char c))"

text \<open>An escaped literal under \<open>re.IGNORECASE\<close>, at the start of \<open>rest\<close>.\<close>

definition ci_prefix :: "string \<Rightarrow> string \<Rightarrow> bool" where
  "ci_prefix lit rest = (length lit \<le> length rest \<and> lower (take (length lit) rest) = lower lit)"

text \<open>The character before the position \<open>n\<close> characters further on.\<close>

definition prev_after :: "char option \<Rightarrow> string \<Rightarrow> nat \<Rightarrow> char option" where
  "prev_after prev rest n = (if n = 0 then prev else Some (rest ! (n - 1)))"

text \<open>\<open>\bLIT\b\<close> at a position.\<close>

definition bounded_literal_at :: "string \<Rightarrow> char option \<Rightarrow> string \<Rightarrow> bool" where
  "bounded_literal_at lit prev rest =
     (word_boundary prev rest \<and> ci_prefix lit rest \<and>
      word_boundary (prev_after prev rest (length lit)) (drop (length lit) rest))"

text \<open>
  \<open>re.sub\<close> with a pattern given by its matcher: at a position the matcher returns the
  replacement and the length of the match the engine prefers there, if any. The text is
  scanned from the left; after a match the scan goes on behind it, and after an empty match
  the same position is not matched again, so its character is copied. (Both patterns below
  prefer a non-empty match at a position to the empty one.)
\<close>

fun re_sub :: "(char option \<Rightarrow> string \<Rightarrow> (string \<times> nat) option) \<Rightarrow> char option \<Rightarrow> string \<Rightarrow> string" where
  "re_sub m prev rest =
     (case m prev rest of
        None \<Rightarrow> (case rest of [] \<Rightarrow> [] | c # cs \<Rightarrow> c # re_sub m (Some c) cs)
      | Some (repl, n) \<Rightarrow>
          if n = 0 then repl @ (case rest of [] \<Rightarrow> [] | c # cs \<Rightarrow> c # re_sub m (Some c) cs)
          else
            (case rest of
               [] \<Rightarrow> repl
             | c # cs \<Rightarrow> repl @ re_sub m (Some ((c # cs) ! (n - 1))) (drop (n - 1) cs)))"

declare re_sub.simps [simp del]

text \<open>\<open>s.split(".")[0]\<close> and \<open>s.split(".")[-1]\<close>.\<close>

definition first_segment :: "string \<Rightarrow> string" where
  "first_segment s = takeWhile (\<lambda>c. c \<noteq> CHR ''.'') s"

definition last_segment :: "string \<Rightarrow> string" where
  "last_segment s = rev (takeWhile (\<lambda>c. c \<noteq> CHR ''.'') (rev s))"

subsection \<open>The identifier patterns\<close>

text \<open>
  The five patterns of \<open>id_patterns\<close> are of three shapes: \<open>^lit$\<close>, \<open>lit$\<close> and \<open>^lit\<close>.
  Without \<open>re.MULTILINE\<close>, \<open>$\<close> holds at the end of the text and before a line feed
  that ends it.
\<close>

datatype id_pattern = Exact string | Suffix string | Prefix string

definition id_patterns :: "id_pattern list" where
  "id_patterns = [Exact ''id'', Suffix ''_id'', Prefix ''id_'', Suffix ''_code'', Exact ''stuid'']"

definition at_end :: "string \<Rightarrow> bool" where
  "at_end rest = (rest = [] \<or> rest = [CHR 0x0A])"

fun search_suffix :: "string \<Rightarrow> string \<Rightarrow> bool" where
  "search_suffix lit rest =
     (if ci_prefix lit rest \<and> at_end (drop (length lit) rest) then True
      else (case rest of [] \<Rightarrow> False | c # cs \<Rightarrow> search_suffix lit cs))"

declare search_suffix.simps [simp del]

fun pattern_search :: "id_pattern \<Rightarrow> string \<Rightarrow> bool" where
  "pattern_search (Exact lit) name = (ci_prefix lit name \<and> at_end (drop (length lit) name))"
| "pattern_search (Suffix lit) name = search_suffix lit name"
| "pattern_search (Prefix lit) name = ci_prefix lit name"

definition is_id_column :: "string \<Rightarrow> bool" where
  "is_id_column name = list_ex (\<lambda>p. pattern_search p name) id_patterns"

subsection \<open>The replacement template of \<open>re.sub\<close>\<close>

text \<open>
  A replacement string with a backslash is a template: \<open>re.sub\<close> parses it before it looks
  for a match, and a template it rejects raises whether or not the pattern matches. The
  pattern of \<open>_replace_column\<close> has no group, so the one group a template can name is
  group 0, the whole match; every other group reference raises. The parser is that of
  Python 3.11: \<open>\g<name>\<close> raises \<open>IndexError\<close> for a name that is an identifier, stands for
  the match when \<open>int(name)\<close> is 0 and raises \<open>re.error\<close> otherwise; \<open>\0\<close> takes up to two
  more octal digits and three octal digits not above \<open>\377\<close> stand for a character, any
  other digit escape being a group reference; \<open>\a \b \f \n \r \t \v \\\<close> stand for their
  characters; a backslash before another ASCII letter or at the end raises \<open>re.error\<close>; and
  a backslash before anything else stays as it is. The parser reads one token ahead, so a
  lone backslash right behind the closing \<open>>\<close> of \<open>\g<name>\<close> raises \<open>re.error\<close> before
  the name is looked up.
\<close>

datatype template_part = Text char | Whole_match

definition is_oct_digit :: "char \<Rightarrow> bool" where
  "is_oct_digit c = (let n = (of_char c :: nat) in 48 \<le> n \<and> n \<le> 55)"

definition is_digit :: "char \<Rightarrow> bool" where
  "is_digit c = (let n = (of_char c :: nat) in 48 \<le> n \<and> n \<le> 57)"

definition is_ascii_letter :: "char \<Rightarrow> bool" where
  "is_ascii_letter c = (let n = (of_char c :: nat) in (65 \<le> n \<and> n \<le> 90) \<or> (97 \<le> n \<and> n \<le> 122))"

definition oct_value :: "char \<Rightarrow> nat" where
  "oct_value c = of_char c - 48"

text \<open>\<open>str.isidentifier()\<close> on the code points below 256.\<close>

definition is_id_start :: "char \<Rightarrow> bool" where
  "is_id_start c =
     (let n = (of_char c :: nat) in
        (65 \<le> n \<and> n \<le> 90) \<or> n = 95 \<or> (97 \<le> n \<and> n \<le> 122) \<or> n = 170 \<or> n = 181 \<or>
        n = 186 \<or> (192 \<le> n \<and> n \<le> 214) \<or> (216 \<le> n \<and> n \<le> 246) \<or> (248 \<le> n \<and> n \<le> 255))"

definition is_id_continue :: "char \<Rightarrow> bool" where
  "is_id_continue c = (is_id_start c \<or> is_digit c \<or> of_char c = (183 :: nat))"

definition is_identifier :: "string \<Rightarrow> bool" where
  "is_identifier name =
     (case name of [] \<Rightarrow> False | c # cs \<Rightarrow> is_id_start c \<and> list_all is_id_continue cs)"

text \<open>
  Whether \<open>int(name)\<close> is 0: white space around, a sign, then zeros with single underscores
  between them, and no more digits than the default limit of 4300. (Any other value, and
  a name \<open>int\<close> rejects, ends in \<open>re.error\<close>.)
\<close>

definition is_int_space :: "char \<Rightarrow> bool" where
  "is_int_space c =
     (let n = (of_char c :: nat) in (9 \<le> n \<and> n \<le> 13) \<or> n = 32 \<or> n = 133 \<or> n = 160)"

fun zeros :: "string \<Rightarrow> bool" where
  "zeros [] = False"
| "zeros [c] = (c = CHR ''0'')"
| "zeros (c # d # r) = (c = CHR ''0'' \<and> (if d = CHR ''_'' then zeros r else zeros (d # r)))"

definition int_is_zero :: "string \<Rightarrow> bool" where
  "int_is_zero name =
     (let stripped = rev (dropWhile is_int_space (rev (dropWhile is_int_space name)));
          digits = (case stripped of
                      [] \<Rightarrow> []
                    | c # r \<Rightarrow> if c = CHR ''+'' \<or> c = CHR ''-'' then r else stripped)
      in zeros digits \<and> length (filter (\<lambda>c. c = CHR ''0'') digits) \<le> 4300)"

fun parse_template :: "string \<Rightarrow> error + template_part list" where
  "parse_template [] = Inr []"
| "parse_template (c # rest) =
     (if c \<noteq> CHR 0x5C then
        (case parse_template rest of Inl e \<Rightarrow> Inl e | Inr parts \<Rightarrow> Inr (Text c # parts))
      else
        (case rest of
           [] \<Rightarrow> Inl ReError
         | e # rest' \<Rightarrow>
             if e = CHR ''g'' then
               (case rest' of
                  [] \<Rightarrow> Inl ReError
                | lt # named \<Rightarrow>
                    if lt \<noteq> CHR ''<'' then Inl ReError
                    else
                      (let name = takeWhile (\<lambda>x. x \<noteq> CHR ''>'') named;
                           after = drop (Suc (length name)) named
                       in if length name = length named \<or> name = [] then Inl ReError
                          else if is_identifier name then
                            (if after = [CHR 0x5C] then Inl ReError else Inl IndexError)
                          else if int_is_zero name then
                            (case parse_template after of
                               Inl err \<Rightarrow> Inl err
                             | Inr parts \<Rightarrow> Inr (Whole_match # parts))
                          else Inl ReError))
             else if e = CHR ''0'' then
               (case rest' of
                  d2 # d3 # r \<Rightarrow>
                    if is_oct_digit d2 \<and> is_oct_digit d3 then
                      (case parse_template r of
                         Inl err \<Rightarrow> Inl err
                       | Inr parts \<Rightarrow> Inr (Text (char_of (8 * oct_value d2 + oct_value d3)) # parts))
                    else if is_oct_digit d2 then
                      (case parse_template (d3 # r) of
                         Inl err \<Rightarrow> Inl err
                       | Inr parts \<Rightarrow> Inr (Text (char_of (oct_value d2)) # parts))
                    else
                      (case parse_template (d2 # d3 # r) of
                         Inl err \<Rightarrow> Inl err
                       | Inr parts \<Rightarrow> Inr (Text (char_of (0 :: nat)) # parts))
                | [d2] \<Rightarrow>
                    if is_oct_digit d2 then Inr [Text (char_of (oct_value d2))]
                    else
                      (case parse_template [d2] of
                         Inl err \<Rightarrow> Inl err
                       | Inr parts \<Rightarrow> Inr (Text (char_of (0 :: nat)) # parts))
                | [] \<Rightarrow> Inr [Text (char_of (0 :: nat))])
             else if is_digit e then
               (case rest' of
                  d2 # d3 # r \<Rightarrow>
                    if is_oct_digit e \<and> is_oct_digit d2 \<and> is_oct_digit d3 \<and>
                       64 * oct_value e + 8 * oct_value d2 + oct_value d3 \<le> 255
                    then
                      (case parse_template r of
                         Inl err \<Rightarrow> Inl err
                       | Inr parts \<Rightarrow>
                           Inr (Text (char_of (64 * oct_value e + 8 * oct_value d2 + oct_value d3))
                                  # parts))
                    else Inl ReError
                | _ \<Rightarrow> Inl ReError)
             else
               (let escaped =
                  (if e = CHR ''a'' then Some [char_of (7 :: nat)]
                   else if e = CHR ''b'' then Some [char_of (8 :: nat)]
                   else if e = CHR ''f'' then Some [char_of (12 :: nat)]
                   else if e = CHR ''n'' then Some [char_of (10 :: nat)]
                   else if e = CHR ''r'' then Some [char_of (13 :: nat)]
                   else if e = CHR ''t'' then Some [char_of (9 :: nat)]
                   else if e = CHR ''v'' then Some [char_of (11 :: nat)]
                   else if e = CHR 0x5C then Some [e]
                   else if is_ascii_letter e then None
                   else Some [c, e])
                in case escaped of
                     None \<Rightarrow> Inl ReError
                   | Some txt \<Rightarrow>
                       (case parse_template rest' of
                          Inl err \<Rightarrow> Inl err
                        | Inr parts \<Rightarrow> Inr (map Text txt @ parts)))))"

declare parse_template.simps [simp del]

text \<open>The replacement a parsed template gives for a match.\<close>

definition expand_template :: "template_part list \<Rightarrow> string \<Rightarrow> string" where
  "expand_template parts matched =
     concat (map (\<lambda>p. case p of Text c \<Rightarrow> [c] | Whole_match \<Rightarrow> matched) parts)"

subsection \<open>The patterns of \<open>_replace_column\<close> and \<open>_wrap_with_avg\<close>\<close>

text \<open>\<open>\bOLD\b\<close>, replaced by what the parsed template of the new name gives.\<close>

definition replace_match ::
  "string \<Rightarrow> template_part list \<Rightarrow> char option \<Rightarrow> string \<Rightarrow> (string \<times> nat) option" where
  "replace_match old_name parts prev rest =
     (if bounded_literal_at old_name prev rest
      then Some (expand_template parts (take (length old_name) rest), length old_name)
      else None)"

text \<open>
  \<open>\bSELECT\b(.+?)\bFROM\b\<close> with \<open>re.DOTALL\<close>: the leftmost SELECT that a FROM follows,
  and behind it the nearest FROM that leaves group 1 at least one character. The result is
  the span of group 1.
\<close>

fun find_from :: "nat \<Rightarrow> char option \<Rightarrow> string \<Rightarrow> nat option" where
  "find_from j prev rest =
     (if bounded_literal_at ''FROM'' prev rest then Some j
      else (case rest of [] \<Rightarrow> None | c # cs \<Rightarrow> find_from (Suc j) (Some c) cs))"

declare find_from.simps [simp del]

fun find_select_from :: "nat \<Rightarrow> char option \<Rightarrow> string \<Rightarrow> (nat \<times> nat) option" where
  "find_select_from i prev rest =
     (case (if bounded_literal_at ''SELECT'' prev rest
            then (case drop 6 rest of [] \<Rightarrow> None | c # cs \<Rightarrow> find_from (i + 7) (Some c) cs)
            else None) of
        Some j \<Rightarrow> Some (i + 6, j)
      | None \<Rightarrow> (case rest of [] \<Rightarrow> None | c # cs \<Rightarrow> find_select_from (Suc i) (Some c) cs))"

declare find_select_from.simps [simp del]

text \<open>
  \<open>\b(AVG|COUNT|SUM|MAX|MIN)\s*\([^)]*\bCOL\b[^)]*\)\<close>: \<open>col_in_parens\<close> decides the part
  behind the opening parenthesis, \<open>agg_call_at\<close> the whole pattern at one position and
  \<open>search_agg_call\<close> is \<open>re.search\<close> for it.
\<close>

fun col_in_parens :: "string \<Rightarrow> char option \<Rightarrow> string \<Rightarrow> bool" where
  "col_in_parens col prev rest =
     (if bounded_literal_at col prev rest \<and> CHR '')'' \<in> set (drop (length col) rest) then True
      else (case rest of
              [] \<Rightarrow> False
            | c # cs \<Rightarrow> if c = CHR '')'' then False else col_in_parens col (Some c) cs))"

declare col_in_parens.simps [simp del]

definition agg_call_at :: "string \<Rightarrow> char option \<Rightarrow> string \<Rightarrow> bool" where
  "agg_call_at col prev rest =
     (word_boundary prev rest \<and>
      list_ex
        (\<lambda>kw. ci_prefix kw rest \<and>
           (case dropWhile is_space_char (drop (length kw) rest) of
              [] \<Rightarrow> False
            | c # body \<Rightarrow> c = CHR ''('' \<and> col_in_parens col (Some c) body))
        [''AVG'', ''COUNT'', ''SUM'', ''MAX'', ''MIN''])"

fun search_agg_call :: "string \<Rightarrow> char option \<Rightarrow> string \<Rightarrow> bool" where
  "search_agg_call col prev rest =
     (if agg_call_at col prev rest then True
      else (case rest of [] \<Rightarrow> False | c # cs \<Rightarrow> search_agg_call col (Some c) cs))"

declare search_agg_call.simps [simp del]

text \<open>
  \<open>(\b(?:\w+\.)?)(COL)\b\<close> with the replacement \<open>f"AVG({prefix}{col_name})"\<close>: the engine
  first tries a whole word and a dot as the prefix, then no prefix.
\<close>

definition wrap_match :: "string \<Rightarrow> char option \<Rightarrow> string \<Rightarrow> (string \<times> nat) option" where
  "wrap_match col_name prev rest =
     (if \<not> word_boundary prev rest then None
      else
        (let w = takeWhile is_word_char rest;
             after_word = dropWhile is_word_char rest;
             with_prefix =
               (case after_word of
                  [] \<Rightarrow> None
                | c # tail \<Rightarrow>
                    if w \<noteq> [] \<and> c = CHR ''.'' \<and> ci_prefix col_name tail \<and>
                       word_boundary (prev_after (Some c) tail (length col_name))
                         (drop (length col_name) tail)
                    then Some (w @ [c]) else None)
         in case with_prefix of
              Some pre \<Rightarrow>
                Some (''AVG('' @ pre @ col_name @ '')'', length pre + length col_name)
            | None \<Rightarrow>
                if ci_prefix col_name rest \<and>
                   word_boundary (prev_after prev rest (length col_name))
                     (drop (length col_name) rest)
                then Some (''AVG('' @ col_name @ '')'', length col_name) else None))"

section \<open>Rewriter (rewriter.py)\<close>

record RewriteResult =
  success :: bool
  sql :: "string option"
  reason :: "string option"

text \<open>\<open>RewriteResult(True, sql=q)\<close> and \<open>RewriteResult(False, reason=r)\<close>.\<close>

abbreviation Success :: "string \<Rightarrow> RewriteResult" where
  "Success q \<equiv> \<lparr>success = True, sql = Some q, reason = None\<rparr>"

abbreviation Refused :: "string \<Rightarrow> RewriteResult" where
  "Refused r \<equiv> \<lparr>success = False, sql = None, reason = Some r\<rparr>"

definition wrap_with_avg :: "string \<Rightarrow> string \<Rightarrow> string" where
  "wrap_with_avg query col_name =
     (case find_select_from 0 None query of
        None \<Rightarrow> query
      | Some (start1, end1) \<Rightarrow>
          (let select_part = take (end1 - start1) (drop start1 query) in
             if search_agg_call col_name None select_part then query
             else
               (let new_select = re_sub (wrap_match col_name) None select_part in
                  if new_select = select_part then query
                  else take start1 query @ new_select @ drop end1 query)))"

text \<open>
  \<open>re.sub(pattern, new_name, query, flags=re.IGNORECASE)\<close>: the new name is the replacement
  template (a name without a backslash parses to itself).
\<close>

definition replace_column :: "string \<Rightarrow> string \<Rightarrow> string \<Rightarrow> error + string" where
  "replace_column query old_col new_col =
     (let old_name = last_segment old_col;
          new_name = last_segment new_col
      in case parse_template new_name of
           Inl e \<Rightarrow> Inl e
         | Inr parts \<Rightarrow> Inr (re_sub (replace_match old_name parts) None query))"

text \<open>
  The loop of \<open>_find_id_column\<close> over \<open>enumerate(schema.column_names)\<close>, from the column id
  \<open>col_id\<close> on; it collects the candidates \<open>(is_pk, col_id, full_name)\<close>.
\<close>

fun find_candidates ::
  "nat \<Rightarrow> (int \<times> string) list \<Rightarrow> string \<Rightarrow> TableSchema \<Rightarrow> (string \<rightharpoonup> PolicyType) \<Rightarrow>
   error + (bool \<times> int \<times> string) list" where
  "find_candidates col_id [] table_lower schema policies = Inr []"
| "find_candidates col_id ((table_idx, col_name) # cols) table_lower schema policies =
     (if col_id = 0 then find_candidates (Suc col_id) cols table_lower schema policies
      else if table_idx < 0 then find_candidates (Suc col_id) cols table_lower schema policies
      else
        (case py_index (table_names schema) table_idx of
           Inl e \<Rightarrow> Inl e
         | Inr table_name \<Rightarrow>
             if lower table_name \<noteq> table_lower
             then find_candidates (Suc col_id) cols table_lower schema policies
             else
               (let full_name = table_name @ ''.'' @ col_name in
                  if is_id_column col_name \<and> policies full_name = Some Public
                  then
                    (case find_candidates (Suc col_id) cols table_lower schema policies of
                       Inl e \<Rightarrow> Inl e
                     | Inr candidates \<Rightarrow>
                         Inr ((int col_id \<in> set (primary_keys schema), int col_id, full_name)
                                # candidates))
                  else find_candidates (Suc col_id) cols table_lower schema policies)))"

text \<open>The sort key \<open>lambda x: (not x[0], x[1])\<close>.\<close>

definition candidate_key :: "bool \<times> int \<times> string \<Rightarrow> bool \<times> int" where
  "candidate_key x = (\<not> fst x, fst (snd x))"

definition find_id_column ::
  "string \<Rightarrow> TableSchema \<Rightarrow> (string \<rightharpoonup> PolicyType) \<Rightarrow> error + string option" where
  "find_id_column col schema policies =
     (let table_lower = lower (first_segment col) in
        case find_candidates 0 (column_names schema) table_lower schema policies of
          Inl e \<Rightarrow> Inl e
        | Inr candidates \<Rightarrow>
            if candidates = [] then Inr None
            else Inr (Some (snd (snd (hd (sort_key candidate_key candidates))))))"

text \<open>
  The loop of \<open>_apply_rewrite_step\<close> over the violations, with the query and the list
  \<open>remaining\<close> as they stand.
\<close>

fun rewrite_step_loop ::
  "Violation list \<Rightarrow> string \<Rightarrow> Violation list \<Rightarrow> TableSchema \<Rightarrow> (string \<rightharpoonup> PolicyType) \<Rightarrow>
   error + (string \<times> Violation list)" where
  "rewrite_step_loop [] query remaining schema policies = Inr (query, remaining)"
| "rewrite_step_loop (v # vs) query remaining schema policies =
     (if policy v = Hidden then
        (case find_id_column (column v) schema policies of
           Inl e \<Rightarrow> Inl e
         | Inr None \<Rightarrow> rewrite_step_loop vs query (remaining @ [v]) schema policies
         | Inr (Some replacement) \<Rightarrow>
             if replacement \<noteq> [] then
               (case replace_column query (column v) replacement of
                  Inl e \<Rightarrow> Inl e
                | Inr query' \<Rightarrow> rewrite_step_loop vs query' remaining schema policies)
             else rewrite_step_loop vs query (remaining @ [v]) schema policies)
      else if policy v = AggOnly then
        (let col_name = last_segment (column v);
             new_query = wrap_with_avg query col_name
         in if new_query \<noteq> query then rewrite_step_loop vs new_query remaining schema policies
            else rewrite_step_loop vs query (remaining @ [v]) schema policies)
      else rewrite_step_loop vs query remaining schema policies)"

definition apply_rewrite_step ::
  "string \<Rightarrow> Violation list \<Rightarrow> TableSchema \<Rightarrow> (string \<rightharpoonup> PolicyType) \<Rightarrow>
   error + (string \<times> Violation list)" where
  "apply_rewrite_step query violations schema policies =
     rewrite_step_loop violations query [] schema policies"

text \<open>The conditions of the four refusal tests of \<open>rewrite\<close>, each a loop over the violations.\<close>

definition unsalvageable :: "Violation \<Rightarrow> bool" where
  "unsalvageable v = ((role v = WherePred \<or> role v = JoinCond) \<and> (policy v = Hidden \<or> policy v = AggOnly))"

definition bad_aggonly_agg :: "Violation \<Rightarrow> bool" where
  "bad_aggonly_agg v = (role v = AggArg \<and> policy v = AggOnly \<and> agg_id v \<noteq> 3 \<and> agg_id v \<noteq> 5)"

definition forbidden_agg :: "Violation \<Rightarrow> bool" where
  "forbidden_agg v = (role v = AggArg \<and> (policy v = Hidden \<or> policy v = JoinOnly))"

definition joinonly_select :: "Violation \<Rightarrow> bool" where
  "joinonly_select v = (role v = SelectExpr \<and> policy v = JoinOnly)"

text \<open>
  The loop \<open>for _ in range(2)\<close> of \<open>rewrite\<close>, with the number of passes left: when none is
  left the loop is over and the call ends in the refusal behind it.
\<close>

fun rewrite_passes ::
  "nat \<Rightarrow> string \<Rightarrow> Violation list \<Rightarrow> TableSchema \<Rightarrow> (string \<rightharpoonup> PolicyType) \<Rightarrow>
   error + RewriteResult" where
  "rewrite_passes 0 current_query select_violations schema policies =
     Inr (Refused ''Rewrite limit exceeded'')"
| "rewrite_passes (Suc n) current_query select_violations schema policies =
     (case apply_rewrite_step current_query select_violations schema policies of
        Inl e \<Rightarrow> Inl e
      | Inr (query', remaining) \<Rightarrow>
          if remaining = [] then Inr (Success query')
          else rewrite_passes n query' remaining schema policies)"

definition rewrite ::
  "string \<Rightarrow> Violation list \<Rightarrow> TableSchema \<Rightarrow> (string \<rightharpoonup> PolicyType) \<Rightarrow> error + RewriteResult" where
  "rewrite query violations schema policies =
     (if violations = [] then Inr (Success query)
      else
        (case find unsalvageable violations of
           Some v \<Rightarrow>
             Inr (Refused (policy_str (policy v) @ '' column in '' @ role_str (role v) @ '': '' @ column v))
         | None \<Rightarrow>
        (case find bad_aggonly_agg violations of
           Some v \<Rightarrow> Inr (Refused (''AggOnly column with non-AVG/COUNT agg: '' @ column v))
         | None \<Rightarrow>
        (case find forbidden_agg violations of
           Some v \<Rightarrow> Inr (Refused (policy_str (policy v) @ '' column in AggArg: '' @ column v))
         | None \<Rightarrow>
        (case find joinonly_select violations of
           Some v \<Rightarrow> Inr (Refused (''JoinOnly column in SelectExpr: '' @ column v))
         | None \<Rightarrow>
             (let select_violations = filter (\<lambda>v. role v = SelectExpr) violations in
                if select_violations = [] then Inr (Success query)
                else rewrite_passes 2 query select_violations schema policies))))))"

section \<open>Definitions for the statements\<close>

text \<open>
  The path condition of the branch of \<open>rewrite\<close> that returns the query unchanged for a list
  that is not empty: no refusal loop fires and no violation has the role \<open>SelectExpr\<close>.
\<close>

definition unhandled_success :: "Violation list \<Rightarrow> bool" where
  "unhandled_success violations =
     (violations \<noteq> [] \<and> find unsalvageable violations = None \<and>
      find bad_aggonly_agg violations = None \<and> find forbidden_agg violations = None \<and>
      find joinonly_select violations = None \<and>
      filter (\<lambda>v. role v = SelectExpr) violations = [])"


text \<open>
  The full name of the column with id \<open>i\<close>, and the test that the loop of \<open>_find_id_column\<close>
  makes on it before it appends a candidate (the code's own test: its patterns through
  \<open>is_id_column\<close>, and \<open>policies.get(full_name) == "Public"\<close>).
\<close>

definition full_name_of :: "TableSchema \<Rightarrow> nat \<Rightarrow> string" where
  "full_name_of schema i =
     table_names schema ! nat (fst (column_names schema ! i)) @ ''.'' @ snd (column_names schema ! i)"

definition loop_accepts :: "string \<Rightarrow> TableSchema \<Rightarrow> (string \<rightharpoonup> PolicyType) \<Rightarrow> nat \<Rightarrow> bool" where
  "loop_accepts col schema policies i =
     (0 < i \<and> i < length (column_names schema) \<and> 0 \<le> fst (column_names schema ! i) \<and>
      lower (table_names schema ! nat (fst (column_names schema ! i))) = lower (first_segment col) \<and>
      is_id_column (snd (column_names schema ! i)) \<and>
      policies (full_name_of schema i) = Some Public)"

definition is_pk :: "TableSchema \<Rightarrow> nat \<Rightarrow> bool" where
  "is_pk schema i = (int i \<in> set (primary_keys schema))"

text \<open>
  The candidates in the specification's words. A name is like an identifier when, without
  regard to case, it is \<open>id\<close>, ends with \<open>_id\<close>, starts with \<open>id_\<close>, ends with \<open>_code\<close> or is
  \<open>stuid\<close>. A column is a candidate for the replacement of a \<open>Hidden\<close> column when it is not
  the wildcard, belongs to a table of the schema whose name is the table name of the
  violating column (compared without regard to case), is named like an identifier, and
  has the policy \<open>Public\<close>, where a column without an entry in the policy map is \<open>Public\<close>.
\<close>

definition spec_id_like :: "string \<Rightarrow> bool" where
  "spec_id_like name =
     (lower name = ''id'' \<or> suffix ''_id'' (lower name) \<or> prefix ''id_'' (lower name) \<or>
      suffix ''_code'' (lower name) \<or> lower name = ''stuid'')"

definition spec_candidate :: "string \<Rightarrow> TableSchema \<Rightarrow> (string \<rightharpoonup> PolicyType) \<Rightarrow> nat \<Rightarrow> bool" where
  "spec_candidate col schema policies i =
     (0 < i \<and> i < length (column_names schema) \<and> 0 \<le> fst (column_names schema ! i) \<and>
      fst (column_names schema ! i) < int (length (table_names schema)) \<and>
      lower (table_names schema ! nat (fst (column_names schema ! i))) = lower (first_segment col) \<and>
      spec_id_like (snd (column_names schema ! i)) \<and>
      policy_get_default policies (full_name_of schema i) = Public)"

text \<open>Every owning-table index of a column other than the wildcard names a table.\<close>

definition owners_in_range :: "TableSchema \<Rightarrow> bool" where
  "owners_in_range schema =
     list_all (\<lambda>tc. fst tc < int (length (table_names schema))) (tl (column_names schema))"

subsection \<open>The schemas and queries of the examples\<close>

definition student_schema :: TableSchema where
  "student_schema =
     \<lparr>db_id = ''school'', table_names = [''Student''],
      column_names = [(-1, ''*''), (0, ''id''), (0, ''name''), (0, ''email'')],
      column_types = [''text'', ''number'', ''text'', ''text''],
      primary_keys = [1], foreign_keys = []\<rparr>"

definition student_policies :: "string \<rightharpoonup> PolicyType" where
  "student_policies = [''Student.email'' \<mapsto> Hidden, ''Student.id'' \<mapsto> Public]"

definition email_hidden_policies :: "string \<rightharpoonup> PolicyType" where
  "email_hidden_policies = [''Student.email'' \<mapsto> Hidden]"

definition employee_schema :: TableSchema where
  "employee_schema =
     \<lparr>db_id = ''company'', table_names = [''Employee''],
      column_names = [(-1, ''*''), (0, ''emp_id''), (0, ''emp_code''), (0, ''salary'')],
      column_types = [''text'', ''number'', ''text'', ''number''],
      primary_keys = [2], foreign_keys = []\<rparr>"

definition employee_policies :: "string \<rightharpoonup> PolicyType" where
  "employee_policies =
     [''Employee.salary'' \<mapsto> AggOnly, ''Employee.emp_id'' \<mapsto> Public,
      ''Employee.emp_code'' \<mapsto> Public]"

text \<open>\<open>SELECT *\<close>, \<open>SELECT COUNT(*)\<close> and a query with a column id, each over the first table.\<close>

definition select_of :: "int \<Rightarrow> int \<Rightarrow> sql" where
  "select_of agg col_id =
     Sql False [(agg, ValUnit 0 (Some (ColUnit 0 col_id False)) None)]
       [TableUnit 0] [] [] None None None"

text \<open>
  \<open>SELECT salary, AVG(salary) FROM Employee\<close> with its one violation, the bare \<open>salary\<close> of
  the SELECT clause; and \<open>SELECT email FROM Student\<close> with its violation.
\<close>

definition aggregated_query :: string where
  "aggregated_query = ''SELECT salary, AVG(salary) FROM Employee''"

definition double_salary_query :: string where
  "double_salary_query = ''SELECT salary, salary FROM Employee''"

definition salary_violation :: Violation where
  "salary_violation = Violation ''Employee.salary'' SelectExpr AggOnly 0"

definition email_query :: string where
  "email_query = ''SELECT email FROM Student''"

definition email_violation :: Violation where
  "email_violation = Violation ''Student.email'' SelectExpr Hidden 0"

section \<open>Properties of the violation checker\<close>

lemma PERMISSION_TABLE_row:
  "\<exists>row. PERMISSION_TABLE p = Some row \<and> row r = Some (base_matrix p r)"
  by (cases p; cases r) (simp_all add: PERMISSION_TABLE_def)

lemma is_allowed_value:
  "is_allowed p r a = Inr (base_matrix p r \<and> \<not> (p = AggOnly \<and> r = AggArg \<and> a \<noteq> 3 \<and> a \<noteq> 5))"
proof -
  obtain row where row: "PERMISSION_TABLE p = Some row" "row r = Some (base_matrix p r)"
    using PERMISSION_TABLE_row by blast
  from row show ?thesis
    by (cases p; cases r) (simp_all add: is_allowed_def AGGONLY_ALLOWED_AGGS_def)
qed

text \<open>
  C5. \<open>is_allowed\<close> returns a boolean for every policy, role and aggregate id (no lookup
  fails): the entry of the base permission matrix, except that an \<open>AggOnly\<close> column as
  \<open>AggArg\<close> is allowed if and only if the aggregate is count (3) or avg (5).
\<close>

theorem C5_is_allowed_total_matrix:
  "is_allowed p r a =
     Inr (if p = AggOnly \<and> r = AggArg then a = 3 \<or> a = 5 else base_matrix p r)"
  by (cases p; cases r) (simp_all add: is_allowed_value)

lemma check_violations_total: "\<exists>vs. check_violations refs policies = Inr vs"
  by (induction refs) (auto simp: Let_def is_allowed_value)

lemma check_violations_denied:
  "check_violations refs policies = Inr vs \<Longrightarrow> v \<in> set vs \<Longrightarrow>
   is_allowed (policy v) (role v) (agg_id v) = Inr False"
proof (induction refs arbitrary: vs)
  case Nil
  then show ?case by simp
next
  case (Cons ref refs)
  obtain ws where ws: "check_violations refs policies = Inr ws"
    using check_violations_total by blast
  show ?case
  proof (cases "v \<in> set ws")
    case True
    then show ?thesis using Cons.IH ws by blast
  next
    case False
    with Cons.prems ws show ?thesis
      by (auto simp: Let_def is_allowed_value split: if_splits)
  qed
qed

lemma check_violations_policy:
  "check_violations refs policies = Inr vs \<Longrightarrow> v \<in> set vs \<Longrightarrow>
   policy v = policy_get_default policies (column v)"
proof (induction refs arbitrary: vs)
  case Nil
  then show ?case by simp
next
  case (Cons ref refs)
  obtain ws where ws: "check_violations refs policies = Inr ws"
    using check_violations_total by blast
  show ?case
  proof (cases "v \<in> set ws")
    case True
    then show ?thesis using Cons.IH ws by blast
  next
    case False
    with Cons.prems ws show ?thesis
      by (auto simp: Let_def is_allowed_value split: if_splits)
  qed
qed

lemma missing_entry_no_violation:
  "check_violations refs policies = Inr vs \<Longrightarrow> v \<in> set vs \<Longrightarrow> policies (column v) \<noteq> None"
proof
  assume a: "check_violations refs policies = Inr vs" "v \<in> set vs" "policies (column v) = None"
  then have "policy v = Public"
    using check_violations_policy [OF a(1) a(2)] by (simp add: policy_get_default_def)
  moreover have "is_allowed (policy v) (role v) (agg_id v) = Inr False"
    using check_violations_denied [OF a(1) a(2)] .
  ultimately show False by (simp add: is_allowed_value)
qed

section \<open>Properties of the rewriter\<close>

lemma unhandled_success_rewrite:
  "unhandled_success violations \<Longrightarrow> rewrite query violations schema policies = Inr (Success query)"
  by (simp add: unhandled_success_def rewrite_def)

lemma find_SomeI: "x \<in> set xs \<Longrightarrow> P x \<Longrightarrow> \<exists>y. find P xs = Some y"
  by (cases "find P xs") (auto simp: find_None_iff)

text \<open>
  C6. For every query text, schema and policy map, \<open>rewrite\<close> on the empty violation list
  returns success with the input text unchanged.
\<close>

theorem C6_rewrite_empty_unchanged:
  "rewrite query [] schema policies = Inr (Success query)"
  by (simp add: rewrite_def)

text \<open>
  C3. If the violation list holds a violation with role \<open>WherePred\<close> or \<open>JoinCond\<close> and
  policy \<open>Hidden\<close> or \<open>AggOnly\<close>, then \<open>rewrite\<close> returns a refusal, whatever the other
  violations, the query text, the schema and the policy map are.
\<close>

theorem C3_unsalvageable_refused:
  assumes "v \<in> set violations"
    and "role v = WherePred \<or> role v = JoinCond"
    and "policy v = Hidden \<or> policy v = AggOnly"
  shows "\<exists>r. rewrite query violations schema policies = Inr (Refused r)"
proof -
  have "unsalvageable v" using assms by (simp add: unsalvageable_def)
  then obtain w where "find unsalvageable violations = Some w"
    using assms(1) find_SomeI by metis
  moreover have "violations \<noteq> []" using assms(1) by auto
  ultimately show ?thesis by (simp add: rewrite_def)
qed

theorem C3_unsalvageable_refused_witness:
  "\<exists>r. rewrite ''SELECT name FROM Student WHERE email = 1''
          [Violation ''Student.name'' SelectExpr Hidden 0,
           Violation ''Student.email'' WherePred Hidden 0]
          student_schema email_hidden_policies = Inr (Refused r)"
  using C3_unsalvageable_refused [of "Violation ''Student.email'' WherePred Hidden 0"
      "[Violation ''Student.name'' SelectExpr Hidden 0, Violation ''Student.email'' WherePred Hidden 0]"]
  by simp

text \<open>
  C10. Every violation that \<open>check_violations\<close> returns with role \<open>WherePred\<close> or \<open>JoinCond\<close>
  has policy \<open>Hidden\<close> or \<open>AggOnly\<close>; every one with role \<open>AggArg\<close> has policy \<open>Hidden\<close> or
  \<open>JoinOnly\<close>, or policy \<open>AggOnly\<close> with an aggregate other than count (3) and avg (5). So a
  list that the checker returns never meets the condition of the branch of \<open>rewrite\<close> that
  returns the text unchanged for a list that is not empty.
\<close>

theorem C10_checker_violations_shape:
  assumes "check_violations refs policies = Inr vs"
  shows "(\<forall>v \<in> set vs. role v = WherePred \<or> role v = JoinCond \<longrightarrow>
            policy v = Hidden \<or> policy v = AggOnly) \<and>
         (\<forall>v \<in> set vs. role v = AggArg \<longrightarrow>
            policy v = Hidden \<or> policy v = JoinOnly \<or>
            (policy v = AggOnly \<and> agg_id v \<noteq> 3 \<and> agg_id v \<noteq> 5)) \<and>
         \<not> unhandled_success vs"
proof -
  have denied: "\<And>v. v \<in> set vs \<Longrightarrow>
      \<not> (base_matrix (policy v) (role v) \<and>
         \<not> (policy v = AggOnly \<and> role v = AggArg \<and> agg_id v \<noteq> 3 \<and> agg_id v \<noteq> 5))"
    using check_violations_denied [OF assms] by (simp add: is_allowed_value)
  have pred: "policy v = Hidden \<or> policy v = AggOnly"
    if "v \<in> set vs" "role v = WherePred \<or> role v = JoinCond" for v
    using denied [OF that(1)] that(2) by (cases "policy v") auto
  have agg: "policy v = Hidden \<or> policy v = JoinOnly \<or>
      (policy v = AggOnly \<and> agg_id v \<noteq> 3 \<and> agg_id v \<noteq> 5)"
    if "v \<in> set vs" "role v = AggArg" for v
    using denied [OF that(1)] that(2) by (cases "policy v") auto
  have "\<not> unhandled_success vs"
  proof
    assume u: "unhandled_success vs"
    then obtain v where v: "v \<in> set vs"
      by (cases vs) (auto simp: unhandled_success_def)
    from u have none:
      "\<And>w. w \<in> set vs \<Longrightarrow> \<not> unsalvageable w \<and> \<not> bad_aggonly_agg w \<and> \<not> forbidden_agg w \<and>
         role w \<noteq> SelectExpr"
      by (auto simp: unhandled_success_def find_None_iff filter_empty_conv)
    show False
    proof (cases "role v")
      case SelectExpr
      then show ?thesis using none [OF v] by simp
    next
      case JoinCond
      then show ?thesis using none [OF v] pred [OF v] by (simp add: unsalvageable_def)
    next
      case WherePred
      then show ?thesis using none [OF v] pred [OF v] by (simp add: unsalvageable_def)
    next
      case AggArg
      then show ?thesis using none [OF v] agg [OF v]
        by (auto simp: bad_aggonly_agg_def forbidden_agg_def)
    qed
  qed
  with pred agg show ?thesis by blast
qed

theorem C10_checker_violations_shape_witness:
  "check_violations
     [ColumnRef ''Student'' ''name'' SelectExpr 0, ColumnRef ''Student'' ''email'' WherePred 0,
      ColumnRef ''Student'' ''email'' AggArg 3]
     email_hidden_policies =
   Inr [Violation ''Student.email'' WherePred Hidden 0, Violation ''Student.email'' AggArg Hidden 3] \<and>
   \<not> unhandled_success
     [Violation ''Student.email'' WherePred Hidden 0, Violation ''Student.email'' AggArg Hidden 3]"
proof -
  have c: "check_violations
     [ColumnRef ''Student'' ''name'' SelectExpr 0, ColumnRef ''Student'' ''email'' WherePred 0,
      ColumnRef ''Student'' ''email'' AggArg 3]
     email_hidden_policies =
   Inr [Violation ''Student.email'' WherePred Hidden 0, Violation ''Student.email'' AggArg Hidden 3]"
    by (simp add: email_hidden_policies_def col_key_of_def policy_get_default_def is_allowed_value Let_def)
  show ?thesis using c C10_checker_violations_shape [OF c] by simp
qed

section \<open>Properties of the role extractor\<close>

lemma resolve_col_id_unresolved:
  assumes "0 \<le> col_id"
    and "int (length (column_names schema)) \<le> col_id \<or> fst (column_names schema ! nat col_id) < 0"
  shows "\<exists>c. resolve_col_id schema col_id = Inr ('''', c)"
proof (cases "col_id = 0 \<or> int (length (column_names schema)) \<le> col_id")
  case True
  then show ?thesis by (auto simp: resolve_col_id_def)
next
  case False
  with assms have neg: "fst (column_names schema ! nat col_id) < 0" by blast
  from False assms(1) have idx:
    "py_index (column_names schema) col_id = Inr (column_names schema ! nat col_id)"
    by (simp add: py_index_def)
  show ?thesis
    using False neg
    by (cases "column_names schema ! nat col_id") (simp add: resolve_col_id_def idx)
qed

lemma unresolved_index_dropped:
  assumes "0 \<le> col_id"
    and "int (length (column_names schema)) \<le> col_id \<or> fst (column_names schema ! nat col_id) < 0"
  shows "select_col_unit_refs schema outer (Some (ColUnit a col_id d)) = Inr []"
    and "cond_col_unit_refs schema r (Some (ColUnit a col_id d)) = Inr []"
proof -
  obtain c where "resolve_col_id schema col_id = Inr ('''', c)"
    using resolve_col_id_unresolved [OF assms] by blast
  then show "select_col_unit_refs schema outer (Some (ColUnit a col_id d)) = Inr []"
    and "cond_col_unit_refs schema r (Some (ColUnit a col_id d)) = Inr []"
    by (simp_all add: select_col_unit_refs_def cond_col_unit_refs_def Let_def)
qed










text \<open>
  C9. A column index that resolves to no column of the schema is meant to be dropped
  without an exception. That holds from 0 upwards (\<open>unresolved_index_dropped\<close>), but not
  below 0: over the four columns of \<open>student_schema\<close>, the index \<open>-1\<close> is read as the last
  column and yields a reference, and the index \<open>-5\<close> raises \<open>IndexError\<close>.
\<close>

theorem C9_negative_index_not_dropped:
  "extract_roles (select_of 0 (-1)) student_schema =
     Inr [ColumnRef ''Student'' ''email'' SelectExpr 0] \<and>
   extract_roles (select_of 0 (-5)) student_schema = Inl IndexError"
  by (simp add: select_of_def student_schema_def extract_from_val_unit_def
      select_col_unit_refs_def resolve_col_id_def py_index_def extend_with_def)

section \<open>Properties of the rewriting passes\<close>

lemma wrap_with_avg_aggregated:
  assumes "find_select_from 0 None query = Some (start1, end1)"
    and "search_agg_call col_name None (take (end1 - start1) (drop start1 query))"
  shows "wrap_with_avg query col_name = query"
  using assms by (simp add: wrap_with_avg_def)

lemma rewrite_select_only:
  assumes "find unsalvageable violations = None"
    and "find bad_aggonly_agg violations = None"
    and "find forbidden_agg violations = None"
    and "find joinonly_select violations = None"
    and "filter (\<lambda>v. role v = SelectExpr) violations \<noteq> []"
  shows "rewrite query violations schema policies =
           rewrite_passes 2 query (filter (\<lambda>v. role v = SelectExpr) violations) schema policies"
proof -
  from assms(5) have "violations \<noteq> []" by auto
  with assms show ?thesis by (simp add: rewrite_def)
qed

lemma aggregated_query_span: "find_select_from 0 None aggregated_query = Some (6, 27)"
  by code_simp

lemma aggregated_query_agg_call:
  "search_agg_call ''salary'' None (take (27 - 6) (drop 6 aggregated_query))"
  by code_simp

lemma salary_last_segment: "last_segment (column salary_violation) = ''salary''"
  by (simp add: salary_violation_def last_segment_def)

lemma aggregated_query_step:
  "apply_rewrite_step aggregated_query [salary_violation] employee_schema employee_policies =
     Inr (aggregated_query, [salary_violation])"
proof -
  have "wrap_with_avg aggregated_query ''salary'' = aggregated_query"
    using wrap_with_avg_aggregated [OF aggregated_query_span aggregated_query_agg_call] .
  moreover have "policy salary_violation = AggOnly" by (simp add: salary_violation_def)
  ultimately show ?thesis
    by (simp add: apply_rewrite_step_def salary_last_segment Let_def)
qed

lemma select_only_singleton:
  assumes "role v = SelectExpr" and "policy v = Hidden \<or> policy v = AggOnly"
  shows "find unsalvageable [v] = None" and "find bad_aggonly_agg [v] = None"
    and "find forbidden_agg [v] = None" and "find joinonly_select [v] = None"
    and "filter (\<lambda>v. role v = SelectExpr) [v] = [v]"
  using assms
  by (auto simp: unsalvageable_def bad_aggonly_agg_def forbidden_agg_def joinonly_select_def)

lemma email_query_step:
  "apply_rewrite_step email_query [email_violation] student_schema student_policies =
     Inr (''SELECT id FROM Student'', [])"
  by code_simp

lemma double_salary_first_pass:
  "apply_rewrite_step double_salary_query [salary_violation, salary_violation]
     employee_schema employee_policies =
   Inr (''SELECT AVG(salary), AVG(salary) FROM Employee'', [salary_violation])"
  by code_simp

lemma double_salary_second_pass:
  "apply_rewrite_step ''SELECT AVG(salary), AVG(salary) FROM Employee'' [salary_violation]
     employee_schema employee_policies =
   Inr (''SELECT AVG(salary), AVG(salary) FROM Employee'', [salary_violation])"
  by code_simp

text \<open>
  C1. A \<open>SelectExpr\<close> violation of an \<open>AggOnly\<close> column whose name already stands inside an
  aggregate call of the SELECT clause is meant to count as resolved and to be dropped from
  the remaining list. The code keeps it. For \<open>SELECT salary, salary FROM Employee\<close> with
  its two violations, the first pass wraps both occurrences for the first violation, finds
  the name already aggregated for the second and keeps that one; the second pass changes
  nothing, and \<open>rewrite\<close> ends in the refusal "Rewrite limit exceeded" although every
  occurrence is wrapped. For \<open>SELECT salary, AVG(salary) FROM Employee\<close> with its one
  violation the name stands inside \<open>AVG(...)\<close> from the start, the pass keeps the violation
  and the result is the same refusal.
\<close>

theorem C1_aggregated_violation_kept:
  "apply_rewrite_step double_salary_query [salary_violation, salary_violation]
     employee_schema employee_policies =
     Inr (''SELECT AVG(salary), AVG(salary) FROM Employee'', [salary_violation]) \<and>
   rewrite double_salary_query [salary_violation, salary_violation]
     employee_schema employee_policies =
     Inr (Refused ''Rewrite limit exceeded'') \<and>
   find_select_from 0 None aggregated_query = Some (6, 27) \<and>
   search_agg_call ''salary'' None (take (27 - 6) (drop 6 aggregated_query)) \<and>
   apply_rewrite_step aggregated_query [salary_violation] employee_schema employee_policies =
     Inr (aggregated_query, [salary_violation]) \<and>
   rewrite aggregated_query [salary_violation] employee_schema employee_policies =
     Inr (Refused ''Rewrite limit exceeded'')"
proof -
  have sel: "role salary_violation = SelectExpr"
    "policy salary_violation = Hidden \<or> policy salary_violation = AggOnly"
    by (simp_all add: salary_violation_def)
  have "rewrite aggregated_query [salary_violation] employee_schema employee_policies =
      rewrite_passes 2 aggregated_query [salary_violation] employee_schema employee_policies"
    using rewrite_select_only [of "[salary_violation]"] select_only_singleton [OF sel] by simp
  also have "\<dots> = Inr (Refused ''Rewrite limit exceeded'')"
    by (simp add: numeral_2_eq_2 aggregated_query_step)
  finally have one: "rewrite aggregated_query [salary_violation] employee_schema employee_policies =
      Inr (Refused ''Rewrite limit exceeded'')" .
  have none: "find unsalvageable [salary_violation, salary_violation] = None"
    "find bad_aggonly_agg [salary_violation, salary_violation] = None"
    "find forbidden_agg [salary_violation, salary_violation] = None"
    "find joinonly_select [salary_violation, salary_violation] = None"
    and keep: "filter (\<lambda>v. role v = SelectExpr) [salary_violation, salary_violation] =
      [salary_violation, salary_violation]"
    by (simp_all add: salary_violation_def unsalvageable_def bad_aggonly_agg_def
        forbidden_agg_def joinonly_select_def)
  have "rewrite double_salary_query [salary_violation, salary_violation]
      employee_schema employee_policies =
      rewrite_passes 2 double_salary_query [salary_violation, salary_violation]
        employee_schema employee_policies"
    using rewrite_select_only [OF none] keep by simp
  also have "\<dots> = Inr (Refused ''Rewrite limit exceeded'')"
    by (simp add: numeral_2_eq_2 double_salary_first_pass double_salary_second_pass)
  finally have two: "rewrite double_salary_query [salary_violation, salary_violation]
      employee_schema employee_policies = Inr (Refused ''Rewrite limit exceeded'')" .
  from one two double_salary_first_pass aggregated_query_span aggregated_query_agg_call
    aggregated_query_step
  show ?thesis by blast
qed

text \<open>
  C4. When no refusal loop fires and some violation has the role \<open>SelectExpr\<close>, \<open>rewrite\<close>
  makes at most two passes over the \<open>SelectExpr\<close> violations: if the first pass leaves none
  unresolved the result is success with the text of that pass; otherwise a second pass
  runs on what remained, and the result is success with its text if it leaves none, and
  the refusal "Rewrite limit exceeded" if it leaves some. There is no third pass. (A pass
  that raises ends the call with its exception.)
\<close>

theorem C4_at_most_two_passes:
  assumes "find unsalvageable violations = None"
    and "find bad_aggonly_agg violations = None"
    and "find forbidden_agg violations = None"
    and "find joinonly_select violations = None"
    and "filter (\<lambda>v. role v = SelectExpr) violations \<noteq> []"
  shows "rewrite query violations schema policies =
     (case apply_rewrite_step query (filter (\<lambda>v. role v = SelectExpr) violations) schema policies of
        Inl e \<Rightarrow> Inl e
      | Inr (query1, remaining1) \<Rightarrow>
          if remaining1 = [] then Inr (Success query1)
          else
            (case apply_rewrite_step query1 remaining1 schema policies of
               Inl e \<Rightarrow> Inl e
             | Inr (query2, remaining2) \<Rightarrow>
                 if remaining2 = [] then Inr (Success query2)
                 else Inr (Refused ''Rewrite limit exceeded'')))"
  unfolding rewrite_select_only [OF assms]
  by (simp add: numeral_2_eq_2 split: sum.splits prod.splits)

theorem C4_at_most_two_passes_witness:
  "rewrite aggregated_query [salary_violation] employee_schema employee_policies =
     Inr (Refused ''Rewrite limit exceeded'') \<and>
   rewrite email_query [email_violation] student_schema student_policies =
     Inr (Success ''SELECT id FROM Student'')"
proof -
  have sa: "role salary_violation = SelectExpr"
    "policy salary_violation = Hidden \<or> policy salary_violation = AggOnly"
    by (simp_all add: salary_violation_def)
  have sb: "role email_violation = SelectExpr"
    "policy email_violation = Hidden \<or> policy email_violation = AggOnly"
    by (simp_all add: email_violation_def)
  note a = select_only_singleton [OF sa]
  note b = select_only_singleton [OF sb]
  have na: "filter (\<lambda>v. role v = SelectExpr) [salary_violation] \<noteq> []"
    and nb: "filter (\<lambda>v. role v = SelectExpr) [email_violation] \<noteq> []"
    using a(5) b(5) by simp_all
  have ra: "rewrite aggregated_query [salary_violation] employee_schema employee_policies =
      Inr (Refused ''Rewrite limit exceeded'')"
    unfolding C4_at_most_two_passes [OF a(1-4) na] a(5) by (simp add: aggregated_query_step)
  have rb: "rewrite email_query [email_violation] student_schema student_policies =
      Inr (Success ''SELECT id FROM Student'')"
    unfolding C4_at_most_two_passes [OF b(1-4) nb] b(5) by (simp add: email_query_step)
  from ra rb show ?thesis by blast
qed

text \<open>
  C2. The checker reads a missing entry as \<open>Public\<close>: a reference to \<open>Student.id\<close> is no
  violation under a policy map without an entry for it. The replacement search does not:
  with the same map it finds no replacement for \<open>Student.email\<close>, although \<open>id\<close> is an
  identifier column of the same table and a primary key, and \<open>rewrite\<close> then refuses; with
  the entry \<open>Student.id: Public\<close> added it finds \<open>Student.id\<close>.
\<close>

theorem C2_missing_entry_not_a_candidate:
  "check_violations [ColumnRef ''Student'' ''id'' SelectExpr 0] email_hidden_policies = Inr [] \<and>
   find_id_column ''Student.email'' student_schema email_hidden_policies = Inr None \<and>
   find_id_column ''Student.email'' student_schema student_policies = Inr (Some ''Student.id'') \<and>
   rewrite email_query [email_violation] student_schema email_hidden_policies =
     Inr (Refused ''Rewrite limit exceeded'')"
proof -
  have 1: "check_violations [ColumnRef ''Student'' ''id'' SelectExpr 0] email_hidden_policies = Inr []"
    by (simp add: email_hidden_policies_def col_key_of_def policy_get_default_def
        is_allowed_value Let_def)
  have 2: "find_id_column ''Student.email'' student_schema email_hidden_policies = Inr None"
    by code_simp
  have 3: "find_id_column ''Student.email'' student_schema student_policies =
      Inr (Some ''Student.id'')"
    by code_simp
  have 4: "rewrite email_query [email_violation] student_schema email_hidden_policies =
      Inr (Refused ''Rewrite limit exceeded'')"
    by code_simp
  from 1 2 3 4 show ?thesis by blast
qed

section \<open>Properties of the replacement search\<close>

lemma hd_sort_key_least:
  assumes "xs \<noteq> []"
  shows "hd (sort_key f xs) \<in> set xs \<and> (\<forall>x \<in> set xs. f (hd (sort_key f xs)) \<le> f x)"
proof -
  have "sort_key f xs \<noteq> []" using assms by (metis length_sort length_0_conv)
  then obtain y ys where ys: "sort_key f xs = y # ys" by (cases "sort_key f xs") auto
  have "sorted (map f (y # ys))" using sorted_sort_key [of f xs] ys by simp
  then have "\<forall>z \<in> set (y # ys). f y \<le> f z" by auto
  moreover have "set (y # ys) = set xs" using set_sort [of f xs] ys by simp
  ultimately show ?thesis using ys by auto
qed

lemma find_candidates_from:
  assumes "owners_in_range schema" and "k \<le> length (column_names schema)"
  shows "find_candidates k (drop k (column_names schema)) (lower (first_segment col)) schema policies =
     Inr (map (\<lambda>i. (is_pk schema i, int i, full_name_of schema i))
            (filter (loop_accepts col schema policies) [k..<length (column_names schema)]))"
  using assms(2)
proof (induction "length (column_names schema) - k" arbitrary: k)
  case 0
  then show ?case by simp
next
  case (Suc m)
  let ?cs = "column_names schema"
  let ?g = "\<lambda>i. (is_pk schema i, int i, full_name_of schema i)"
  from Suc.hyps(2) have k: "k < length ?cs" by simp
  have IH: "find_candidates (Suc k) (drop (Suc k) ?cs) (lower (first_segment col)) schema policies =
      Inr (map ?g (filter (loop_accepts col schema policies) [Suc k..<length ?cs]))"
    using Suc.hyps(1) [of "Suc k"] Suc.hyps(2) k by simp
  obtain t c where tc: "?cs ! k = (t, c)" by (cases "?cs ! k") auto
  have dr: "drop k ?cs = (t, c) # drop (Suc k) ?cs"
    using k tc by (simp add: Cons_nth_drop_Suc [symmetric])
  have up: "[k..<length ?cs] = k # [Suc k..<length ?cs]"
    using k by (simp add: upt_conv_Cons)
  show ?case
  proof (cases "k = 0 \<or> t < 0")
    case True
    then have "\<not> loop_accepts col schema policies k"
      using tc by (auto simp: loop_accepts_def)
    with True show ?thesis unfolding dr up using IH by auto
  next
    case False
    then have k0: "0 < k" and t0: "0 \<le> t" by auto
    have "?cs ! k \<in> set (tl ?cs)"
    proof -
      have "?cs ! k = tl ?cs ! (k - 1)" using k k0 by (simp add: nth_tl)
      moreover have "k - 1 < length (tl ?cs)" using k k0 by simp
      ultimately show ?thesis by (metis nth_mem)
    qed
    then have "t < int (length (table_names schema))"
      using assms(1) tc by (auto simp: owners_in_range_def list_all_iff)
    then have idx: "py_index (table_names schema) t = Inr (table_names schema ! nat t)"
      using t0 by (simp add: py_index_def)
    have cand: "loop_accepts col schema policies k \<longleftrightarrow>
        lower (table_names schema ! nat t) = lower (first_segment col) \<and> is_id_column c \<and>
        policies (table_names schema ! nat t @ ''.'' @ c) = Some Public"
      using k k0 t0 tc by (simp add: loop_accepts_def full_name_of_def)
    have fn: "full_name_of schema k = table_names schema ! nat t @ ''.'' @ c"
      using tc by (simp add: full_name_of_def)
    show ?thesis
      unfolding dr up using False IH idx cand fn
      by (simp add: Let_def is_pk_def)
  qed
qed

lemma candidate_key_le:
  "candidate_key (is_pk schema i, int i, n) \<le> candidate_key (is_pk schema j, int j, m) \<longleftrightarrow>
     (is_pk schema i \<and> \<not> is_pk schema j) \<or> ((is_pk schema j \<longrightarrow> is_pk schema i) \<and> i \<le> j)"
  by (auto simp: candidate_key_def less_eq_prod_def)

text \<open>
  What the search computes, for a schema whose owning-table indices name tables (so that
  it does not raise): the list of the columns that pass the test of the loop, and from it
  the column that is a primary key if any of them is one, with the smallest column id
  among those.
\<close>

lemma find_id_column_choice:
  assumes "owners_in_range schema"
  shows "find_candidates 0 (column_names schema) (lower (first_segment col)) schema policies =
           Inr (map (\<lambda>i. (is_pk schema i, int i, full_name_of schema i))
                  (filter (loop_accepts col schema policies) [0..<length (column_names schema)])) \<and>
         ((\<forall>i. \<not> loop_accepts col schema policies i) \<longrightarrow>
            find_id_column col schema policies = Inr None) \<and>
         ((\<exists>i. loop_accepts col schema policies i) \<longrightarrow>
            (\<exists>i. loop_accepts col schema policies i \<and>
                 find_id_column col schema policies = Inr (Some (full_name_of schema i)) \<and>
                 (\<forall>j. loop_accepts col schema policies j \<longrightarrow>
                    (is_pk schema j \<longrightarrow> is_pk schema i) \<and>
                    (is_pk schema j = is_pk schema i \<longrightarrow> i \<le> j))))"
proof -
  let ?n = "length (column_names schema)"
  let ?g = "\<lambda>i. (is_pk schema i, int i, full_name_of schema i)"
  let ?is = "filter (loop_accepts col schema policies) [0..<?n]"
  have fc: "find_candidates 0 (column_names schema) (lower (first_segment col)) schema policies =
      Inr (map ?g ?is)"
    using find_candidates_from [OF assms, of 0 col policies] by simp
  have mem: "i \<in> set ?is \<longleftrightarrow> loop_accepts col schema policies i" for i
    by (auto simp: loop_accepts_def)
  have none: "find_id_column col schema policies = Inr None"
    if "\<forall>i. \<not> loop_accepts col schema policies i"
  proof -
    from that have "?is = []" by (simp add: filter_empty_conv)
    then show ?thesis by (simp add: find_id_column_def Let_def fc)
  qed
  have some: "\<exists>i. loop_accepts col schema policies i \<and>
       find_id_column col schema policies = Inr (Some (full_name_of schema i)) \<and>
       (\<forall>j. loop_accepts col schema policies j \<longrightarrow>
          (is_pk schema j \<longrightarrow> is_pk schema i) \<and> (is_pk schema j = is_pk schema i \<longrightarrow> i \<le> j))"
    if "\<exists>i. loop_accepts col schema policies i"
  proof -
    from that obtain i0 where "loop_accepts col schema policies i0" by blast
    then have i0: "i0 \<in> set ?is" using mem [of i0] by blast
    have "?is \<noteq> []"
    proof
      assume e: "?is = []"
      from i0 have "i0 \<in> set []" unfolding e .
      then show False by simp
    qed
    then have ne: "map ?g ?is \<noteq> []" by simp
    let ?h = "hd (sort_key candidate_key (map ?g ?is))"
    from hd_sort_key_least [OF ne, of candidate_key]
    have h_in: "?h \<in> set (map ?g ?is)"
      and h_le: "\<forall>x \<in> set (map ?g ?is). candidate_key ?h \<le> candidate_key x"
      by blast+
    from h_in obtain i where i: "i \<in> set ?is" and hi: "?h = ?g i" by auto
    have res: "find_id_column col schema policies = Inr (Some (full_name_of schema i))"
      using ne hi by (simp add: find_id_column_def Let_def fc)
    have best: "(is_pk schema j \<longrightarrow> is_pk schema i) \<and> (is_pk schema j = is_pk schema i \<longrightarrow> i \<le> j)"
      if "loop_accepts col schema policies j" for j
    proof -
      from that have "?g j \<in> set (map ?g ?is)" using mem by auto
      with h_le have "candidate_key (?g i) \<le> candidate_key (?g j)" using hi by auto
      then show ?thesis unfolding candidate_key_le by auto
    qed
    from i res best show ?thesis using mem by blast
  qed
  from fc none some show ?thesis by blast
qed

subsection \<open>The identifier patterns, spelled out\<close>

lemma length_lower: "length (lower s) = length s"
  by (simp add: lower_def)

lemma lower_take: "lower (take n s) = take n (lower s)"
  by (simp add: lower_def take_map)

lemma lower_drop: "lower (drop n s) = drop n (lower s)"
  by (simp add: lower_def drop_map)

lemma ci_prefix_iff_prefix:
  assumes "lower lit = lit"
  shows "ci_prefix lit rest \<longleftrightarrow> prefix lit (lower rest)"
proof
  assume "ci_prefix lit rest"
  then have "take (length lit) (lower rest) = lit"
    using assms by (simp add: ci_prefix_def lower_take)
  then have "lower rest = lit @ drop (length lit) (lower rest)"
    by (metis append_take_drop_id)
  then show "prefix lit (lower rest)" by (metis prefixI)
next
  assume "prefix lit (lower rest)"
  then obtain zs where zs: "lower rest = lit @ zs" by (auto simp: prefix_def)
  then have "length lit \<le> length rest"
    using length_lower [of rest] by simp
  moreover from zs have "take (length lit) (lower rest) = lit" by simp
  ultimately show "ci_prefix lit rest" using assms by (simp add: ci_prefix_def lower_take)
qed

lemma search_suffix_iff:
  "search_suffix lit rest \<longleftrightarrow>
     (\<exists>k \<le> length rest. ci_prefix lit (drop k rest) \<and> at_end (drop (length lit) (drop k rest)))"
proof (induction rest)
  case Nil
  show ?case by (subst search_suffix.simps) simp
next
  case (Cons c cs)
  let ?P = "\<lambda>r. ci_prefix lit r \<and> at_end (drop (length lit) r)"
  have "search_suffix lit (c # cs) \<longleftrightarrow> ?P (c # cs) \<or> search_suffix lit cs"
    by (subst search_suffix.simps) auto
  also have "\<dots> \<longleftrightarrow> ?P (drop 0 (c # cs)) \<or> (\<exists>k \<le> length cs. ?P (drop (Suc k) (c # cs)))"
    using Cons.IH by simp
  also have "\<dots> \<longleftrightarrow> (\<exists>k \<le> length (c # cs). ?P (drop k (c # cs)))"
  proof
    assume "?P (drop 0 (c # cs)) \<or> (\<exists>k \<le> length cs. ?P (drop (Suc k) (c # cs)))"
    then show "\<exists>k \<le> length (c # cs). ?P (drop k (c # cs))"
    proof
      assume "?P (drop 0 (c # cs))"
      then show ?thesis by (intro exI [of _ 0]) simp
    next
      assume "\<exists>k \<le> length cs. ?P (drop (Suc k) (c # cs))"
      then obtain k where "k \<le> length cs" "?P (drop (Suc k) (c # cs))" by blast
      then show ?thesis by (intro exI [of _ "Suc k"]) simp
    qed
  next
    assume "\<exists>k \<le> length (c # cs). ?P (drop k (c # cs))"
    then obtain k where k: "k \<le> length (c # cs)" "?P (drop k (c # cs))" by blast
    show "?P (drop 0 (c # cs)) \<or> (\<exists>k \<le> length cs. ?P (drop (Suc k) (c # cs)))"
    proof (cases k)
      case 0
      with k show ?thesis by simp
    next
      case (Suc j)
      with k have "j \<le> length cs" "?P (drop (Suc j) (c # cs))" by simp_all
      then show ?thesis by blast
    qed
  qed
  finally show ?case .
qed

lemma at_end_no_line_feed:
  assumes "CHR 0x0A \<notin> set name"
  shows "at_end (drop n name) \<longleftrightarrow> length name \<le> n"
proof -
  have "drop n name \<noteq> [CHR 0x0A]"
  proof
    assume "drop n name = [CHR 0x0A]"
    then have "CHR 0x0A \<in> set (drop n name)" by simp
    then show False using assms by (metis in_set_dropD)
  qed
  then show ?thesis by (simp add: at_end_def)
qed

lemma exact_no_line_feed:
  assumes "CHR 0x0A \<notin> set name" and "lower lit = lit"
  shows "pattern_search (Exact lit) name \<longleftrightarrow> lower name = lit"
proof -
  have "pattern_search (Exact lit) name \<longleftrightarrow> prefix lit (lower name) \<and> length name \<le> length lit"
    by (simp add: ci_prefix_iff_prefix [OF assms(2)] at_end_no_line_feed [OF assms(1)])
  also have "\<dots> \<longleftrightarrow> lower name = lit"
  proof
    assume a: "prefix lit (lower name) \<and> length name \<le> length lit"
    then obtain zs where zs: "lower name = lit @ zs" by (auto simp: prefix_def)
    have "length name = length lit + length zs"
      using zs length_lower [of name] by (metis length_append)
    with a have "zs = []" by simp
    with zs show "lower name = lit" by simp
  next
    assume "lower name = lit"
    then show "prefix lit (lower name) \<and> length name \<le> length lit"
      using length_lower [of name] by auto
  qed
  finally show ?thesis .
qed

lemma suffix_no_line_feed:
  assumes "CHR 0x0A \<notin> set name" and "lower lit = lit"
  shows "pattern_search (Suffix lit) name \<longleftrightarrow> suffix lit (lower name)"
proof -
  have drop_no: "CHR 0x0A \<notin> set (drop k name)" for k
    using assms(1) by (metis in_set_dropD)
  have step: "ci_prefix lit (drop k name) \<and> at_end (drop (length lit) (drop k name)) \<longleftrightarrow>
      prefix lit (lower (drop k name)) \<and> length (drop k name) \<le> length lit" for k
    using ci_prefix_iff_prefix [OF assms(2), of "drop k name"]
      at_end_no_line_feed [OF drop_no [of k], of "length lit"] by blast
  have "pattern_search (Suffix lit) name \<longleftrightarrow>
      (\<exists>k \<le> length name. ci_prefix lit (drop k name) \<and> at_end (drop (length lit) (drop k name)))"
    by (simp only: pattern_search.simps search_suffix_iff)
  also have "\<dots> \<longleftrightarrow>
      (\<exists>k \<le> length name. prefix lit (lower (drop k name)) \<and> length (drop k name) \<le> length lit)"
    using step by blast
  also have "\<dots> \<longleftrightarrow> (\<exists>k \<le> length name. lower (drop k name) = lit)"
  proof -
    have "prefix lit (lower r) \<and> length r \<le> length lit \<longleftrightarrow> lower r = lit" for r
    proof
      assume a: "prefix lit (lower r) \<and> length r \<le> length lit"
      then obtain zs where zs: "lower r = lit @ zs" by (auto simp: prefix_def)
      have "length r = length lit + length zs"
        using zs length_lower [of r] by (metis length_append)
      with a have "zs = []" by simp
      with zs show "lower r = lit" by simp
    next
      assume "lower r = lit"
      then show "prefix lit (lower r) \<and> length r \<le> length lit"
        using length_lower [of r] by auto
    qed
    then show ?thesis by blast
  qed
  also have "\<dots> \<longleftrightarrow> suffix lit (lower name)"
  proof
    assume "\<exists>k \<le> length name. lower (drop k name) = lit"
    then obtain k where "drop k (lower name) = lit" by (auto simp: lower_drop)
    then have "lower name = take k (lower name) @ lit" by (metis append_take_drop_id)
    then show "suffix lit (lower name)" by (metis suffixI)
  next
    assume "suffix lit (lower name)"
    then obtain zs where zs: "lower name = zs @ lit" by (auto simp: suffix_def)
    then have "drop (length zs) (lower name) = lit" by simp
    moreover have "length zs \<le> length name" using zs length_lower [of name] by simp
    ultimately show "\<exists>k \<le> length name. lower (drop k name) = lit"
      by (auto simp: lower_drop)
  qed
  finally show ?thesis .
qed

lemma lower_literals:
  "lower ''id'' = ''id''" "lower ''_id'' = ''_id''" "lower ''id_'' = ''id_''"
  "lower ''_code'' = ''_code''" "lower ''stuid'' = ''stuid''"
  by code_simp+

lemma is_id_column_patterns:
  assumes "CHR 0x0A \<notin> set name"
  shows "is_id_column name \<longleftrightarrow>
     lower name = ''id'' \<or> suffix ''_id'' (lower name) \<or> prefix ''id_'' (lower name) \<or>
     suffix ''_code'' (lower name) \<or> lower name = ''stuid''"
proof -
  have "is_id_column name \<longleftrightarrow>
      pattern_search (Exact ''id'') name \<or> pattern_search (Suffix ''_id'') name \<or>
      pattern_search (Prefix ''id_'') name \<or> pattern_search (Suffix ''_code'') name \<or>
      pattern_search (Exact ''stuid'') name"
    by (simp add: is_id_column_def id_patterns_def del: pattern_search.simps)
  moreover have "pattern_search (Prefix ''id_'') name \<longleftrightarrow> prefix ''id_'' (lower name)"
    using ci_prefix_iff_prefix [OF lower_literals(3), of name] by simp
  ultimately show ?thesis
    using exact_no_line_feed [OF assms lower_literals(1)]
      suffix_no_line_feed [OF assms lower_literals(2)]
      suffix_no_line_feed [OF assms lower_literals(4)]
      exact_no_line_feed [OF assms lower_literals(5)]
    by blast
qed

subsection \<open>The replacement template\<close>

text \<open>
  A new name without a backslash is its own replacement, whatever the match; a name with an
  escape is expanded, as in the replacement of \<open>x\<close> by the name \<open>a\n_id\<close>.
\<close>

lemma parse_template_plain:
  "CHR 0x5C \<notin> set t \<Longrightarrow> parse_template t = Inr (map Text t)"
proof (induction t)
  case Nil
  show ?case by (simp add: parse_template.simps)
next
  case (Cons c t)
  then have c: "c \<noteq> CHR 0x5C" and t: "CHR 0x5C \<notin> set t" by auto
  show ?case using c Cons.IH [OF t] by (subst parse_template.simps) simp
qed

lemma expand_template_plain: "expand_template (map Text t) matched = t"
  by (induction t) (simp_all add: expand_template_def)

lemma replace_column_plain:
  assumes "CHR 0x5C \<notin> set (last_segment new_col)"
  shows "replace_column query old_col new_col =
     Inr (re_sub (\<lambda>prev rest.
            if bounded_literal_at (last_segment old_col) prev rest
            then Some (last_segment new_col, length (last_segment old_col)) else None)
          None query)"
proof -
  have "replace_match (last_segment old_col) (map Text (last_segment new_col)) =
      (\<lambda>prev rest.
         if bounded_literal_at (last_segment old_col) prev rest
         then Some (last_segment new_col, length (last_segment old_col)) else None)"
    by (intro ext) (simp add: replace_match_def expand_template_plain)
  then show ?thesis
    using assms by (simp add: replace_column_def Let_def parse_template_plain)
qed

lemma replace_column_escape:
  "replace_column ''SELECT x FROM T'' ''T.x'' [CHR ''T'', CHR ''.'', CHR ''a'', CHR 0x5C, CHR ''n'', CHR ''_'', CHR ''i'', CHR ''d''] =
     Inr [CHR ''S'', CHR ''E'', CHR ''L'', CHR ''E'', CHR ''C'', CHR ''T'', CHR '' '', CHR ''a'', CHR 0x0A,
          CHR ''_'', CHR ''i'', CHR ''d'', CHR '' '', CHR ''F'', CHR ''R'', CHR ''O'', CHR ''M'', CHR '' '', CHR ''T'']"
  by code_simp

subsection \<open>The search against the candidates of the specification\<close>

text \<open>
  Where the policy map has an entry for the column and the column's name holds no line
  feed, the test of the loop is the specification's: the two differ only on a column
  without an entry and on a name with a line feed.
\<close>

lemma loop_accepts_iff_spec_candidate:
  assumes "owners_in_range schema"
    and "policies (full_name_of schema i) \<noteq> None"
    and "CHR 0x0A \<notin> set (snd (column_names schema ! i))"
  shows "loop_accepts col schema policies i \<longleftrightarrow> spec_candidate col schema policies i"
proof (cases "0 < i \<and> i < length (column_names schema)")
  case False
  then show ?thesis by (auto simp: loop_accepts_def spec_candidate_def)
next
  case True
  let ?cs = "column_names schema"
  from True have i0: "0 < i" and il: "i < length ?cs" by auto
  have "?cs ! i = tl ?cs ! (i - 1)" using il i0 by (simp add: nth_tl)
  moreover have "i - 1 < length (tl ?cs)" using il i0 by simp
  ultimately have "?cs ! i \<in> set (tl ?cs)" by (metis nth_mem)
  then have owner: "fst (?cs ! i) < int (length (table_names schema))"
    using assms(1) by (auto simp: owners_in_range_def list_all_iff)
  have name: "is_id_column (snd (?cs ! i)) \<longleftrightarrow> spec_id_like (snd (?cs ! i))"
    using is_id_column_patterns [OF assms(3)] by (simp add: spec_id_like_def)
  have pol: "policies (full_name_of schema i) = Some Public \<longleftrightarrow>
      policy_get_default policies (full_name_of schema i) = Public"
    using assms(2) by (auto simp: policy_get_default_def)
  show ?thesis
    using owner name pol by (simp add: loop_accepts_def spec_candidate_def)
qed

lemma student_id_is_spec_candidate:
  "spec_candidate ''Student.email'' student_schema email_hidden_policies 1"
  "is_pk student_schema 1"
  "full_name_of student_schema 1 = ''Student.id''"
  "email_hidden_policies ''Student.id'' = None"
  by code_simp+

lemma student_search_empty:
  "find_candidates 0 (column_names student_schema) (lower (first_segment ''Student.email''))
     student_schema email_hidden_policies = Inr []"
  "find_id_column ''Student.email'' student_schema email_hidden_policies = Inr None"
  by code_simp+

lemma line_feed_name:
  "is_id_column [CHR ''i'', CHR ''d'', CHR 0x0A]"
  "\<not> spec_id_like [CHR ''i'', CHR ''d'', CHR 0x0A]"
  by code_simp+

text \<open>
  C7. The replacement search is meant to consider exactly the \<open>Public\<close> columns of the
  same table whose name is like an identifier. Under the policy map with the one entry
  \<open>Student.email: Hidden\<close>, the column \<open>Student.id\<close> (column id 1 of \<open>student_schema\<close>, a
  primary key, without an entry and so \<open>Public\<close>) is such a candidate, but the search
  collects no candidate and returns nothing. Besides, the patterns of the code accept the
  name \<open>id\<close> followed by a line feed, which is none of the five names of the specification.
\<close>

theorem C7_public_candidate_not_considered:
  "spec_candidate ''Student.email'' student_schema email_hidden_policies 1 \<and>
   is_pk student_schema 1 \<and>
   full_name_of student_schema 1 = ''Student.id'' \<and>
   email_hidden_policies ''Student.id'' = None \<and>
   find_candidates 0 (column_names student_schema) (lower (first_segment ''Student.email''))
     student_schema email_hidden_policies = Inr [] \<and>
   find_id_column ''Student.email'' student_schema email_hidden_policies = Inr None \<and>
   is_id_column [CHR ''i'', CHR ''d'', CHR 0x0A] \<and>
   \<not> spec_id_like [CHR ''i'', CHR ''d'', CHR 0x0A]"
  using student_id_is_spec_candidate student_search_empty line_feed_name by blast

end
